theory Spec2Isabelle
  imports Main "HOL-Library.Log_Nat"
begin

section \<open>C integers and IEEE doubles\<close>

text \<open>
  The C++ sources compute with \<open>int\<close> (32 bits on every platform the library targets) and
  \<open>double\<close>. Values of type \<open>int\<close> are modelled as mathematical integers; \<open>is_int\<close> says that
  an integer is a value of the C type. Operations whose C++ behaviour is undefined (a
  \<open>double\<close> to \<open>int\<close> conversion that does not fit, signed overflow, a copy beyond a
  buffer) return an \<open>error\<close>.
\<close>

datatype error = CastOverflow | SignedOverflow | OutOfBounds

definition is_int :: "int \<Rightarrow> bool" where
  "is_int x \<longleftrightarrow> - (2 ^ 31) \<le> x \<and> x < 2 ^ 31"

text \<open>
  Rounding to \<open>double\<close>: a non-negative integer significand \<open>p\<close> (counted in any fixed
  binary unit) is rounded to the nearest value with at most 53 significant bits, ties to
  even, which is the default IEEE 754 rounding of every arithmetic operation on doubles.
\<close>

definition round_to_double :: "int \<Rightarrow> int" where
  "round_to_double p =
     (if p < 2 ^ 53 then p
      else let s = nat (bitlen p - 53);
               q = p div 2 ^ s;
               r = p mod 2 ^ s;
               h = 2 ^ (s - 1)
           in (if h < r \<or> (r = h \<and> odd q) then q + 1 else q) * 2 ^ s)"

text \<open>
  \<open>static_cast<double>(n) * 1.10\<close>. The conversion of an \<open>int\<close> to \<open>double\<close> is exact. The
  literal \<open>1.10\<close> is the double \<open>0x1.199999999999ap+0\<close>, that is
  \<open>2476979795053773 / 2^51\<close>. The product is rounded to double; the result is given in
  units of \<open>2^-51\<close>.
\<close>

definition mul_1_10 :: "int \<Rightarrow> int" where
  "mul_1_10 n = sgn n * round_to_double (\<bar>n\<bar> * 2476979795053773)"

text \<open>
  \<open>static_cast<int>(x)\<close> of a double \<open>x\<close> given in units of \<open>2^-51\<close>: truncation towards
  zero; undefined behaviour when the truncated value is not an \<open>int\<close>.
\<close>

definition static_cast_int :: "int \<Rightarrow> error + int" where
  "static_cast_int x =
     (let t = sgn x * (\<bar>x\<bar> div 2 ^ 51)
      in if is_int t then Inr t else Inl CastOverflow)"

text \<open>The expression \<open>static_cast<int>(static_cast<double>(n)*1.10)\<close> of both \<open>resize\<close>.\<close>

definition grow :: "int \<Rightarrow> error + int" where
  "grow n = static_cast_int (mul_1_10 n)"

text \<open>
  Addition of two doubles that hold integers (byte totals), in units of 1: the exact sum
  rounded to double.
\<close>

definition dbl_add :: "int \<Rightarrow> int \<Rightarrow> int" where
  "dbl_add a b = sgn (a + b) * round_to_double \<bar>a + b\<bar>"


section \<open>The neighbor list manager (neighbor.h)\<close>

text \<open>
  The class \<open>Neighbor\<close>. A private member \<open>_x\<close> of the class is the field \<open>f_x\<close>. The
  device vectors \<open>dev_nbor\<close> and \<open>dev_packed\<close> are lists of \<open>int\<close>; a vector that is not
  allocated is the empty list. The byte totals \<open>_gpu_bytes\<close>, \<open>_c_bytes\<close> and
  \<open>_cell_bytes\<close> are doubles that hold byte counts; each is modelled by the integer it
  holds. Members that no operation below reads or writes (the registry pointer, the device,
  timers, launch shapes, host staging vectors) are left out.
\<close>

record Neighbor =
  f_allocated :: bool
  f_use_packing :: bool
  f_alloc_packed :: bool
  f_gpu_nbor :: int
  f_max_atoms :: int
  f_max_nbors :: int
  f_max_host :: int
  f_nbor_pitch :: int
  f_maxspecial :: int
  f_gpu_bytes :: int
  f_c_bytes :: int
  f_cell_bytes :: int
  dev_nbor :: "int list"
  dev_packed :: "int list"

definition IJ_SIZE :: int where
  "IJ_SIZE = 131072"

text \<open>\<open>sizeof(int)\<close> for the 32-bit \<open>int\<close> assumed throughout.\<close>

definition sizeof_int :: int where
  "sizeof_int = 4"

text \<open>\<open>void packing(const bool use_packing)\<close>\<close>

definition packing :: "Neighbor \<Rightarrow> bool \<Rightarrow> Neighbor" where
  "packing s use_packing = s\<lparr>f_use_packing := use_packing\<rparr>"

text \<open>
  Modelled from the spec: \<open>Neighbor::alloc(bool &success)\<close> is declared in neighbor.h and
  defined in neighbor.cpp, which is not among the sources. It is a parameter of \<open>resize\<close>:
  a function from the manager and the incoming \<open>success\<close> flag to the manager with its
  buffers reallocated and the outgoing flag. The spec describes it as reallocating the full
  buffer set for the capacity already recorded and reporting failure through the flag;
  \<open>alloc_keeps_capacity\<close> states the part of this that the capacity results rely on.
\<close>

type_synonym alloc_fn = "Neighbor \<Rightarrow> bool \<Rightarrow> Neighbor \<times> bool"

definition alloc_keeps_capacity :: "alloc_fn \<Rightarrow> bool" where
  "alloc_keeps_capacity alloc \<longleftrightarrow>
     (\<forall>s success.
        f_max_atoms (fst (alloc s success)) = f_max_atoms s \<and>
        f_max_nbors (fst (alloc s success)) = f_max_nbors s \<and>
        f_max_host (fst (alloc s success)) = f_max_host s)"

text \<open>
  \<open>inline void resize(const int inum, const int max_nbor, bool &success)\<close>.
  The reference parameter \<open>success\<close> is passed in and returned.
\<close>

definition resize2 ::
  "alloc_fn \<Rightarrow> Neighbor \<Rightarrow> int \<Rightarrow> int \<Rightarrow> bool \<Rightarrow> error + Neighbor \<times> bool" where
  "resize2 alloc s inum max_nbor success =
     (if f_max_atoms s < inum \<or> f_max_nbors s < max_nbor then
        (case grow inum of
           Inl e \<Rightarrow> Inl e
         | Inr a \<Rightarrow>
            (if f_max_nbors s < max_nbor then
               (case grow max_nbor of
                  Inl e \<Rightarrow> Inl e
                | Inr m \<Rightarrow> Inr (alloc (s\<lparr>f_max_atoms := a, f_max_nbors := m\<rparr>) success))
             else Inr (alloc (s\<lparr>f_max_atoms := a\<rparr>) success)))
      else Inr (s, success))"

text \<open>
  \<open>inline void resize(const int inum, const int host_inum, const int max_nbor,
  bool &success)\<close>
\<close>

definition resize3 ::
  "alloc_fn \<Rightarrow> Neighbor \<Rightarrow> int \<Rightarrow> int \<Rightarrow> int \<Rightarrow> bool \<Rightarrow> error + Neighbor \<times> bool" where
  "resize3 alloc s inum host_inum max_nbor success =
     (if f_max_atoms s < inum \<or> f_max_nbors s < max_nbor \<or> f_max_host s < host_inum then
        (case grow inum of
           Inl e \<Rightarrow> Inl e
         | Inr a \<Rightarrow>
            (case grow host_inum of
               Inl e \<Rightarrow> Inl e
             | Inr h \<Rightarrow>
                (if f_max_nbors s < max_nbor then
                   (case grow max_nbor of
                      Inl e \<Rightarrow> Inl e
                    | Inr m \<Rightarrow>
                       Inr (alloc (s\<lparr>f_max_atoms := a, f_max_host := h, f_max_nbors := m\<rparr>)
                              success))
                 else Inr (alloc (s\<lparr>f_max_atoms := a, f_max_host := h\<rparr>) success))))
      else Inr (s, success))"

text \<open>
  A sequence of \<open>resize\<close> calls on one manager. Each call names its overload, its sizes and
  the value its \<open>success\<close> variable holds on entry.
\<close>

datatype request = Resize2 int int bool | Resize3 int int int bool

fun request_ints :: "request \<Rightarrow> int list" where
  "request_ints (Resize2 inum max_nbor success) = [inum, max_nbor]"
| "request_ints (Resize3 inum host_inum max_nbor success) = [inum, host_inum, max_nbor]"

fun resize_call :: "alloc_fn \<Rightarrow> Neighbor \<Rightarrow> request \<Rightarrow> error + Neighbor \<times> bool" where
  "resize_call alloc s (Resize2 inum max_nbor success) = resize2 alloc s inum max_nbor success"
| "resize_call alloc s (Resize3 inum host_inum max_nbor success) =
     resize3 alloc s inum host_inum max_nbor success"

fun resize_seq :: "alloc_fn \<Rightarrow> Neighbor \<Rightarrow> request list \<Rightarrow> error + Neighbor" where
  "resize_seq alloc s [] = Inr s"
| "resize_seq alloc s (r # rs) =
     (case resize_call alloc s r of
        Inl e \<Rightarrow> Inl e
      | Inr (s', success') \<Rightarrow> resize_seq alloc s' rs)"

text \<open>
  Modelled from the spec: \<open>ucl_copy(dst, src, numel, async)\<close> is the copy routine of the
  Geryon library (lib/gpu/geryon), which is not among the sources. The spec has
  \<open>copy_unpacked\<close> duplicate the matrix into the packed storage, and the comment on
  \<open>copy_unpacked\<close> says "Make a copy of unpacked nbor lists in the packed storage area":
  \<open>ucl_copy\<close> overwrites the first \<open>numel\<close> elements of \<open>dst\<close> with the first \<open>numel\<close>
  elements of \<open>src\<close>. Copying more elements than either vector holds is undefined
  behaviour. The \<open>async\<close> flag only concerns when the copy runs on the command queue and is
  not modelled.
\<close>

definition ucl_copy :: "int list \<Rightarrow> int list \<Rightarrow> int \<Rightarrow> error + int list" where
  "ucl_copy dst src numel =
     (if 0 \<le> numel \<and> nat numel \<le> length src \<and> nat numel \<le> length dst
      then Inr (take (nat numel) src @ drop (nat numel) dst)
      else Inl OutOfBounds)"

text \<open>
  \<open>inline void copy_unpacked(const int inum, const int maxj)
    { ucl_copy(dev_packed,dev_nbor,inum*(maxj+2),true); }\<close>
\<close>

definition copy_unpacked :: "Neighbor \<Rightarrow> int \<Rightarrow> int \<Rightarrow> error + Neighbor" where
  "copy_unpacked s inum maxj =
     (if is_int (maxj + 2) \<and> is_int (inum * (maxj + 2)) then
        (case ucl_copy (dev_packed s) (dev_nbor s) (inum * (maxj + 2)) of
           Inl e \<Rightarrow> Inl e
         | Inr d \<Rightarrow> Inr (s\<lparr>dev_packed := d\<rparr>))
      else Inl SignedOverflow)"

text \<open>
  Reading \<open>a[i]\<close> through a pointer to an array whose elements are the list \<open>a\<close>; an index
  outside the array is undefined behaviour.
\<close>

definition array_get :: "int list \<Rightarrow> int \<Rightarrow> error + int" where
  "array_get a i = (if 0 \<le> i \<and> i < int (length a) then Inr (a ! nat i) else Inl OutOfBounds)"

text \<open>
  \<open>inline int max_nbor_loop(const int inum, int *numj, int *ilist) const\<close>.
  \<open>max_nbor_loop_from i mn\<close> is the \<open>for\<close> loop entered with loop variable \<open>i\<close> and
  running maximum \<open>mn\<close>.
\<close>

function max_nbor_loop_from :: "int \<Rightarrow> int \<Rightarrow> int \<Rightarrow> int list \<Rightarrow> int list \<Rightarrow> error + int" where
  "max_nbor_loop_from i mn inum numj ilist =
     (if i < inum then
        (case array_get ilist i of
           Inl e \<Rightarrow> Inl e
         | Inr k \<Rightarrow>
            (case array_get numj k of
               Inl e \<Rightarrow> Inl e
             | Inr v \<Rightarrow> max_nbor_loop_from (i + 1) (max mn v) inum numj ilist))
      else Inr mn)"
  by pat_completeness auto
termination
  by (relation "measure (\<lambda>(i, mn, inum, numj, ilist). nat (inum - i))") auto

declare max_nbor_loop_from.simps [simp del]

definition max_nbor_loop :: "int \<Rightarrow> int list \<Rightarrow> int list \<Rightarrow> error + int" where
  "max_nbor_loop inum numj ilist = max_nbor_loop_from 0 0 inum numj ilist"

text \<open>
  \<open>inline double gpu_bytes()\<close>. The sum is formed left to right in double arithmetic;
  \<open>2*IJ_SIZE*sizeof(int)\<close> is an exact integer that converts to double exactly.
\<close>

definition gpu_bytes :: "Neighbor \<Rightarrow> int" where
  "gpu_bytes s =
     (let res = dbl_add (dbl_add (f_gpu_bytes s) (f_c_bytes s)) (f_cell_bytes s)
      in if f_gpu_nbor s = 0 then dbl_add res (2 * IJ_SIZE * sizeof_int) else res)"

text \<open>
  Modelled from the spec: \<open>build_nbor_list\<close> is only declared in neighbor.h; its body
  (neighbor.cpp) is not among the sources. The spec gives it in six steps. Steps 1 to 5
  (binning, cell counts, the stencil scan, the transpose) run on the device over
  floating-point positions and produce, for each particle, its actual number of neighbors;
  that result is the argument \<open>counts\<close>. Step 6 is modelled in the spec's words: "Re-scan
  actual per-particle neighbor counts; if any exceeds the current \<open>max_nbors\<close> allocation,
  signal failure via \<open>success=false\<close> and report the observed maximum through
  \<open>max_nbors_out\<close>". The spec says nothing about the two reference parameters when no count
  exceeds the allocation; the model leaves them as they were passed in.
\<close>

definition build_nbor_list :: "Neighbor \<Rightarrow> int list \<Rightarrow> bool \<Rightarrow> int \<Rightarrow> bool \<times> int" where
  "build_nbor_list s counts success max_nbors =
     (if list_ex (\<lambda>c. f_max_nbors s < c) counts then (False, Max (set counts))
      else (success, max_nbors))"


section \<open>The shared kernel registry (neighbor\_shared.cpp)\<close>

text \<open>
  The class \<open>NeighborShared\<close>. Its members \<open>_compiled\<close> and \<open>_gpu_nbor\<close> are the fields
  \<open>sh_compiled\<close> and \<open>sh_gpu_nbor\<close>. A program pointer holds \<open>None\<close> when no program object
  is alive behind it (before \<open>new\<close>, after \<open>delete\<close>), and otherwise the program, which is
  empty until \<open>load_string\<close> compiles a source into it. The kernel sources \<open>neighbor_cpu\<close>
  and \<open>neighbor_gpu\<close> are string constants of generated headers; only their identity
  matters. A kernel or texture handle holds the program and the function name it was set
  to, and \<open>None\<close> when it is clear.
\<close>

datatype kernel_source = neighbor_cpu | neighbor_gpu

datatype UCL_Program = Empty_Program | Loaded kernel_source string

datatype program_ref = Nbor_Program | Build_Program

type_synonym UCL_Kernel = "(program_ref \<times> string) option"

record NeighborShared =
  sh_compiled :: bool
  sh_gpu_nbor :: int
  nbor_program :: "UCL_Program option"
  build_program :: "UCL_Program option"
  k_nbor :: UCL_Kernel
  k_cell_id :: UCL_Kernel
  k_cell_counts :: UCL_Kernel
  k_build_nbor :: UCL_Kernel
  k_transpose :: UCL_Kernel
  k_special :: UCL_Kernel
  neigh_tex :: UCL_Kernel

text \<open>The device backend is fixed when the library is built: \<open>USE_OPENCL\<close> or not.\<close>

datatype backend = CUDA | OpenCL

text \<open>A call either returns, with the registry as it then is, or ends the process
  through \<open>exit\<close> with a status, after writing a text to \<open>std::cerr\<close>.\<close>

datatype outcome = Returns NeighborShared | Exits int string

text \<open>\<open>void NeighborShared::clear()\<close>\<close>

definition clear :: "NeighborShared \<Rightarrow> NeighborShared" where
  "clear s =
     (if sh_compiled s then
        (if 0 < sh_gpu_nbor s then
           (if sh_gpu_nbor s = 1
            then s\<lparr>k_cell_id := None, k_cell_counts := None\<rparr>
            else s)
             \<lparr>k_build_nbor := None, k_transpose := None, k_special := None,
              build_program := None\<rparr>
         else s\<lparr>k_nbor := None, nbor_program := None\<rparr>)
          \<lparr>sh_compiled := False\<rparr>
      else s)"

text \<open>
  \<open>void NeighborShared::compile_kernels(UCL_Device &dev, const int gpu_nbor)\<close>.
  The macro \<open>OCL_VENDOR\<close> (a string literal set by the build) is a parameter, as is the
  backend, which selects the branch of \<open>#ifdef USE_OPENCL\<close>. The device is only handed to
  the program constructor and is left out.
\<close>

definition compile_kernels :: "backend \<Rightarrow> string \<Rightarrow> NeighborShared \<Rightarrow> int \<Rightarrow> outcome" where
  "compile_kernels be OCL_VENDOR s gpu_nbor =
     (if sh_compiled s then Returns s
      else
        let s1 = s\<lparr>sh_gpu_nbor := gpu_nbor\<rparr>;
            flags = ''-cl-fast-relaxed-math -cl-mad-enable -D'' @ OCL_VENDOR
        in if gpu_nbor = 0 then
             Returns (s1\<lparr>nbor_program := Some (Loaded neighbor_cpu flags),
                         k_nbor := Some (Nbor_Program, ''kernel_unpack''),
                         sh_compiled := True\<rparr>)
           else
             let s2 = s1\<lparr>build_program := Some Empty_Program\<rparr>
             in case (if be = OpenCL then
                        (if gpu_nbor = 1
                         then Exits 1 (''CANNOT CURRENTLY USE GPU NEIGHBORING WITH OPENCL''
                                         @ [CHR 0x0A])
                         else Returns s2)
                      else Returns (s2\<lparr>build_program := Some (Loaded neighbor_gpu flags)\<rparr>))
                of Exits status text \<Rightarrow> Exits status text
                 | Returns s3 \<Rightarrow>
                    let s4 = (if gpu_nbor = 1
                              then s3\<lparr>k_cell_id := Some (Build_Program, ''calc_cell_id''),
                                      k_cell_counts :=
                                        Some (Build_Program, ''kernel_calc_cell_counts'')\<rparr>
                              else s3)
                    in Returns
                         (s4\<lparr>k_build_nbor := Some (Build_Program, ''calc_neigh_list_cell''),
                             k_transpose := Some (Build_Program, ''transpose''),
                             k_special := Some (Build_Program, ''kernel_special''),
                             neigh_tex := Some (Build_Program, ''neigh_tex''),
                             sh_compiled := True\<rparr>))"

text \<open>The kernel handles of the registry that are set, by the function each is set to.\<close>

definition kernels :: "NeighborShared \<Rightarrow> string set" where
  "kernels s =
     snd ` (\<Union>k \<in> {k_nbor s, k_cell_id s, k_cell_counts s, k_build_nbor s, k_transpose s,
                     k_special s}. set_option k)"

text \<open>
  A registry is released when it is marked uncompiled, no program object is alive and no
  kernel handle is set. The constructor leaves a registry in this state.
\<close>

definition released :: "NeighborShared \<Rightarrow> bool" where
  "released s \<longleftrightarrow>
     \<not> sh_compiled s \<and> nbor_program s = None \<and> build_program s = None \<and> kernels s = {}"

text \<open>
  The registries a run can hold: a released one, and what calls of \<open>compile_kernels\<close>
  (with a mode that is not negative: the modes are 0, 1 and 2) and \<open>clear\<close> make of it.
\<close>

inductive reachable :: "backend \<Rightarrow> string \<Rightarrow> NeighborShared \<Rightarrow> bool"
  for be :: backend and OCL_VENDOR :: string where
  fresh: "released s \<Longrightarrow> reachable be OCL_VENDOR s"
| compiled: "reachable be OCL_VENDOR s \<Longrightarrow> 0 \<le> gpu_nbor \<Longrightarrow>
     compile_kernels be OCL_VENDOR s gpu_nbor = Returns s' \<Longrightarrow> reachable be OCL_VENDOR s'"
| cleared: "reachable be OCL_VENDOR s \<Longrightarrow> reachable be OCL_VENDOR (clear s)"

definition shared0 :: NeighborShared where
  "shared0 = \<lparr>sh_compiled = False, sh_gpu_nbor = 0, nbor_program = None,
              build_program = None, k_nbor = None, k_cell_id = None, k_cell_counts = None,
              k_build_nbor = None, k_transpose = None, k_special = None, neigh_tex = None\<rparr>"

text \<open>The handles a compiled registry holds are those its mode calls for.\<close>

definition consistent :: "NeighborShared \<Rightarrow> bool" where
  "consistent s \<longleftrightarrow>
     (if sh_compiled s then
        (if 0 < sh_gpu_nbor s then
           nbor_program s = None \<and> k_nbor s = None \<and>
           (sh_gpu_nbor s \<noteq> 1 \<longrightarrow> k_cell_id s = None \<and> k_cell_counts s = None)
         else
           build_program s = None \<and> k_cell_id s = None \<and> k_cell_counts s = None \<and>
           k_build_nbor s = None \<and> k_transpose s = None \<and> k_special s = None)
      else released s)"

text \<open>
  Concrete registries: \<open>shared0\<close> as constructed, and what \<open>compile_kernels\<close> makes of it
  for the modes 0, 1 and 2 in a build for CUDA with \<open>OCL_VENDOR\<close> set to \<open>"GENERIC_OCL"\<close>.
\<close>

definition flags0 :: string where
  "flags0 = ''-cl-fast-relaxed-math -cl-mad-enable -DGENERIC_OCL''"

definition shared_host :: NeighborShared where
  "shared_host = shared0\<lparr>sh_compiled := True, sh_gpu_nbor := 0,
     nbor_program := Some (Loaded neighbor_cpu flags0),
     k_nbor := Some (Nbor_Program, ''kernel_unpack'')\<rparr>"

definition shared_dev :: NeighborShared where
  "shared_dev = shared0\<lparr>sh_compiled := True, sh_gpu_nbor := 1,
     build_program := Some (Loaded neighbor_gpu flags0),
     k_cell_id := Some (Build_Program, ''calc_cell_id''),
     k_cell_counts := Some (Build_Program, ''kernel_calc_cell_counts''),
     k_build_nbor := Some (Build_Program, ''calc_neigh_list_cell''),
     k_transpose := Some (Build_Program, ''transpose''),
     k_special := Some (Build_Program, ''kernel_special''),
     neigh_tex := Some (Build_Program, ''neigh_tex'')\<rparr>"

definition shared_bin :: NeighborShared where
  "shared_bin = shared0\<lparr>sh_compiled := True, sh_gpu_nbor := 2,
     build_program := Some (Loaded neighbor_gpu flags0),
     k_build_nbor := Some (Build_Program, ''calc_neigh_list_cell''),
     k_transpose := Some (Build_Program, ''transpose''),
     k_special := Some (Build_Program, ''kernel_special''),
     neigh_tex := Some (Build_Program, ''neigh_tex'')\<rparr>"

text \<open>Two allocation functions and a manager state for concrete runs.\<close>

definition alloc_ok :: alloc_fn where
  "alloc_ok s success = (s\<lparr>f_allocated := True\<rparr>, success)"

definition alloc_fail :: alloc_fn where
  "alloc_fail s success = (s\<lparr>f_allocated := True, dev_nbor := [], dev_packed := []\<rparr>, False)"

definition nbor0 :: Neighbor where
  "nbor0 = \<lparr>f_allocated = True, f_use_packing = False, f_alloc_packed = True,
            f_gpu_nbor = 0, f_max_atoms = 1000, f_max_nbors = 10, f_max_host = 0,
            f_nbor_pitch = 1000, f_maxspecial = 0,
            f_gpu_bytes = 0, f_c_bytes = 48000, f_cell_bytes = 0,
            dev_nbor = [7, 8, 9, 2, 1, 0], dev_packed = [0, 0, 0, 0, 0, 0]\<rparr>"


section \<open>Rounding lemmas\<close>

lemma round_to_double_lower:
  "p div 2 ^ nat (bitlen p - 53) * 2 ^ nat (bitlen p - 53) \<le> round_to_double p"
proof (cases "p < 2 ^ 53")
  case True
  then have "bitlen p \<le> 53"
    by (simp add: bitlen_le_iff_power)
  with True show ?thesis
    by (simp add: round_to_double_def)
next
  case False
  then show ?thesis
    by (simp add: round_to_double_def Let_def mult_right_mono)
qed

lemma round_to_double_upper:
  assumes "0 \<le> p"
  shows "round_to_double p \<le> p + 2 ^ nat (bitlen p - 53)"
proof (cases "p < 2 ^ 53")
  case True
  then show ?thesis
    by (simp add: round_to_double_def)
next
  case False
  define s where "s = nat (bitlen p - 53)"
  have "p div 2 ^ s * 2 ^ s = p - p mod 2 ^ s"
    by (simp add: minus_mod_eq_div_mult)
  moreover have "0 \<le> p mod (2::int) ^ s"
    by simp
  ultimately have below: "p div 2 ^ s * 2 ^ s \<le> p"
    by linarith
  then have "(p div 2 ^ s + 1) * 2 ^ s \<le> p + 2 ^ s"
    by (simp add: algebra_simps)
  moreover have "p div 2 ^ s * 2 ^ s \<le> p + 2 ^ s"
    using below by (smt (verit) zero_less_power)
  ultimately show ?thesis
    using False by (simp add: round_to_double_def Let_def s_def)
qed

text \<open>
  For every non-negative \<open>int\<close>, truncating the rounded product gives the integer part of
  \<open>11 n / 10\<close>: the product exceeds \<open>11 n / 10\<close> by \<open>n / (5 * 2^51)\<close>, rounding moves it by
  less than \<open>2^-21\<close>, and rounding never crosses an integer.
\<close>

lemma mul_1_10_trunc:
  assumes "0 \<le> n" and "n \<le> 2 ^ 31"
  shows "round_to_double (n * 2476979795053773) div 2 ^ 51 = 11 * n div 10"
proof -
  define p where "p = n * 2476979795053773"
  define m where "m = 11 * n div 10"
  define s where "s = nat (bitlen p - 53)"
  have p0: "0 \<le> p" using assms by (simp add: p_def)
  have m10: "10 * m \<le> 11 * n" "11 * n \<le> 10 * m + 9"
    unfolding m_def by presburger+
  have lo: "m * 2 ^ 51 \<le> p"
    using m10 assms unfolding p_def by simp
  have hi: "10 * p \<le> 10 * (m * 2 ^ 51) + 9 * 2 ^ 51 + 2 ^ 32"
    using m10 assms unfolding p_def by simp
  have "p < 2 ^ 83"
    using assms unfolding p_def by simp
  then have "bitlen p \<le> 83"
    by (simp add: bitlen_le_iff_power)
  then have s30: "s \<le> 30"
    by (simp add: s_def)
  have "(2::int) ^ s dvd 2 ^ 51"
    using s30 by (intro le_imp_power_dvd) simp
  then have "(2::int) ^ s dvd m * 2 ^ 51"
    by (rule dvd_mult)
  then have "(m * 2 ^ 51) div 2 ^ s * 2 ^ s = m * 2 ^ 51"
    by (rule dvd_div_mult_self)
  moreover have "(m * 2 ^ 51) div 2 ^ s \<le> p div 2 ^ s"
    using lo by (simp add: zdiv_mono1)
  ultimately have "m * 2 ^ 51 \<le> p div 2 ^ s * 2 ^ s"
    by (metis mult_right_mono zero_le_numeral zero_le_power)
  then have L: "m * 2 ^ 51 \<le> round_to_double p"
    using round_to_double_lower [of p] by (simp add: s_def)
  have "(2::int) ^ s \<le> 2 ^ 30"
    using s30 by (intro power_increasing) simp_all
  then have "round_to_double p \<le> p + 2 ^ 30"
    using round_to_double_upper [OF p0] by (simp add: s_def)
  then have U: "round_to_double p < (m + 1) * 2 ^ 51"
    using hi by simp
  have "round_to_double p div 2 ^ 51 = m"
  proof (rule int_div_pos_eq [where r = "round_to_double p - m * 2 ^ 51"])
    show "round_to_double p = 2 ^ 51 * m + (round_to_double p - m * 2 ^ 51)" by simp
    show "0 \<le> round_to_double p - m * 2 ^ 51" using L by simp
    show "round_to_double p - m * 2 ^ 51 < 2 ^ 51" using U by (simp add: algebra_simps)
  qed
  then show ?thesis by (simp add: p_def m_def)
qed

lemma grow_nonneg_cases:
  assumes "0 \<le> n" and "n < 2 ^ 31"
  shows "grow n = (if n \<le> 1952257861 then Inr (11 * n div 10) else Inl CastOverflow)"
proof -
  let ?r = "round_to_double (n * 2476979795053773)"
  have t: "?r div 2 ^ 51 = 11 * n div 10"
    using assms by (intro mul_1_10_trunc) simp_all
  have "0 \<le> (n * 2476979795053773) div 2 ^ nat (bitlen (n * 2476979795053773) - 53)"
    using assms by (simp add: pos_imp_zdiv_nonneg_iff)
  then have "0 \<le> (n * 2476979795053773) div 2 ^ nat (bitlen (n * 2476979795053773) - 53)
                 * 2 ^ nat (bitlen (n * 2476979795053773) - 53)"
    by simp
  then have r0: "0 \<le> ?r"
    using round_to_double_lower [of "n * 2476979795053773"] by linarith
  have trunc: "sgn ?r * (\<bar>?r\<bar> div 2 ^ 51) = 11 * n div 10"
    using r0 t by (cases "?r = 0") (auto simp: sgn_if)
  have range: "is_int (11 * n div 10) \<longleftrightarrow> n \<le> 1952257861"
    using assms by (auto simp: is_int_def)
  show ?thesis
  proof (cases "n = 0")
    case True
    then show ?thesis
      by (simp add: grow_def mul_1_10_def static_cast_int_def round_to_double_def is_int_def)
  next
    case False
    with assms have "sgn n = 1" "\<bar>n\<bar> = n" by simp_all
    then show ?thesis
      using trunc range by (simp add: grow_def mul_1_10_def static_cast_int_def Let_def)
  qed
qed

lemma grow_nonneg:
  assumes "0 \<le> n" and "n \<le> 1952257861"
  shows "grow n = Inr (11 * n div 10)"
  using grow_nonneg_cases [of n] assms by simp

lemma grow_Inr_ge:
  assumes "grow n = Inr a" and "0 \<le> n" and "is_int n"
  shows "a = 11 * n div 10" and "n \<le> a"
proof -
  have "n < 2 ^ 31" using assms(3) by (simp add: is_int_def)
  with assms(1,2) show "a = 11 * n div 10"
    by (auto simp: grow_nonneg_cases split: if_splits)
  then show "n \<le> a"
    using assms(2) by simp
qed


section \<open>Resizing\<close>

text \<open>
  C8: when a resize request exceeds the current capacity in no dimension
  (\<open>inum \<le> _max_atoms\<close> and \<open>max_nbor \<le> _max_nbors\<close>, and \<open>host_inum \<le> _max_host\<close> for the
  overload with \<open>host_inum\<close>), \<open>resize\<close> does nothing: the manager is returned as it was,
  \<open>alloc\<close> is not called (the result is the same for every \<open>alloc\<close>), and \<open>success\<close> keeps
  the value it had.
\<close>

theorem resize_noop:
  "(inum \<le> f_max_atoms s \<and> max_nbor \<le> f_max_nbors s \<longrightarrow>
      resize2 alloc s inum max_nbor success = Inr (s, success)) \<and>
   (inum \<le> f_max_atoms s \<and> max_nbor \<le> f_max_nbors s \<and> host_inum \<le> f_max_host s \<longrightarrow>
      resize3 alloc s inum host_inum max_nbor success = Inr (s, success))"
  by (simp add: resize2_def resize3_def)

theorem resize_noop_witness:
  "(1000 \<le> f_max_atoms nbor0 \<and> 10 \<le> f_max_nbors nbor0 \<and> 0 \<le> f_max_host nbor0) \<and>
   resize2 alloc_fail nbor0 1000 10 True = Inr (nbor0, True) \<and>
   resize3 alloc_fail nbor0 1000 0 10 True = Inr (nbor0, True)"
  using resize_noop [of 1000 nbor0 10 alloc_fail True 0]
  by (simp add: nbor0_def)

lemma resize2_result:
  assumes "alloc_keeps_capacity alloc"
      and "resize2 alloc s inum max_nbor success = Inr (t, success')"
  shows "(if f_max_atoms s < inum \<or> f_max_nbors s < max_nbor
          then grow inum = Inr (f_max_atoms t) \<and>
               (if f_max_nbors s < max_nbor then grow max_nbor = Inr (f_max_nbors t)
                else f_max_nbors t = f_max_nbors s)
          else t = s)"
proof -
  have k: "\<And>u b. f_max_atoms (fst (alloc u b)) = f_max_atoms u"
          "\<And>u b. f_max_nbors (fst (alloc u b)) = f_max_nbors u"
    using assms(1) by (simp_all add: alloc_keeps_capacity_def)
  have fst_eq: "\<And>u b. alloc u b = (t, success') \<Longrightarrow> fst (alloc u b) = t"
    by simp
  show ?thesis
    using assms(2) unfolding resize2_def
    by (auto split: if_splits sum.splits dest!: fst_eq simp: k)
qed

lemma resize3_result:
  assumes "alloc_keeps_capacity alloc"
      and "resize3 alloc s inum host_inum max_nbor success = Inr (t, success')"
  shows "(if f_max_atoms s < inum \<or> f_max_nbors s < max_nbor \<or> f_max_host s < host_inum
          then grow inum = Inr (f_max_atoms t) \<and> grow host_inum = Inr (f_max_host t) \<and>
               (if f_max_nbors s < max_nbor then grow max_nbor = Inr (f_max_nbors t)
                else f_max_nbors t = f_max_nbors s)
          else t = s)"
proof -
  have k: "\<And>u b. f_max_atoms (fst (alloc u b)) = f_max_atoms u"
          "\<And>u b. f_max_nbors (fst (alloc u b)) = f_max_nbors u"
          "\<And>u b. f_max_host (fst (alloc u b)) = f_max_host u"
    using assms(1) by (simp_all add: alloc_keeps_capacity_def)
  have fst_eq: "\<And>u b. alloc u b = (t, success') \<Longrightarrow> fst (alloc u b) = t"
    by simp
  show ?thesis
    using assms(2) unfolding resize3_def
    by (auto split: if_splits sum.splits dest!: fst_eq simp: k)
qed

lemma resize_call_max_nbors:
  assumes "alloc_keeps_capacity alloc"
      and "resize_call alloc s r = Inr (t, success')"
      and "0 \<le> f_max_nbors s"
      and "list_all is_int (request_ints r)"
  shows "f_max_nbors s \<le> f_max_nbors t"
proof (cases r)
  case (Resize2 inum max_nbor success)
  with assms(2) have "resize2 alloc s inum max_nbor success = Inr (t, success')"
    by simp
  from resize2_result [OF assms(1) this] assms(3,4) Resize2 show ?thesis
    by (auto split: if_splits dest: grow_Inr_ge(2))
next
  case (Resize3 inum host_inum max_nbor success)
  with assms(2) have "resize3 alloc s inum host_inum max_nbor success = Inr (t, success')"
    by simp
  from resize3_result [OF assms(1) this] assms(3,4) Resize3 show ?thesis
    by (auto split: if_splits dest: grow_Inr_ge(2))
qed

lemma resize_seq_max_nbors:
  assumes "alloc_keeps_capacity alloc"
  shows "resize_seq alloc s reqs = Inr s' \<Longrightarrow> 0 \<le> f_max_nbors s \<Longrightarrow>
         list_all (\<lambda>r. list_all is_int (request_ints r)) reqs \<Longrightarrow>
         f_max_nbors s \<le> f_max_nbors s'"
proof (induction reqs arbitrary: s)
  case Nil
  then show ?case by simp
next
  case (Cons r rs)
  from Cons.prems(1) obtain t ok where
    step: "resize_call alloc s r = Inr (t, ok)" and rest: "resize_seq alloc t rs = Inr s'"
    by (auto split: sum.splits)
  have "f_max_nbors s \<le> f_max_nbors t"
    using resize_call_max_nbors [OF assms step] Cons.prems by simp
  moreover have "f_max_nbors t \<le> f_max_nbors s'"
    using Cons.IH [OF rest] Cons.prems \<open>f_max_nbors s \<le> f_max_nbors t\<close> by simp
  ultimately show ?case by simp
qed


lemma resize_defined:
  assumes "0 \<le> inum" "inum \<le> 1952257861" "0 \<le> host_inum" "host_inum \<le> 1952257861"
      and "0 \<le> max_nbor" "max_nbor \<le> 1952257861"
  shows "\<exists>r. resize2 alloc s inum max_nbor success = Inr r"
    and "\<exists>r. resize3 alloc s inum host_inum max_nbor success = Inr r"
  using assms by (simp_all add: resize2_def resize3_def grow_nonneg)

text \<open>
  C1 (as amended): over any sequence of \<open>resize\<close> calls with \<open>int\<close> arguments that runs
  without undefined behaviour, on a manager whose \<open>_max_nbors\<close> is not negative and with an
  \<open>alloc\<close> that leaves the capacity fields alone, \<open>_max_nbors\<close> never decreases. In a
  single call of either overload, every dimension whose (non-negative) request exceeds the
  current capacity receives the capacity \<open>11 * request div 10\<close>, that is 110% of the request
  rounded down to an integer, which is at least the request.
\<close>

theorem resize_capacity_growth:
  assumes "alloc_keeps_capacity alloc"
      and "0 \<le> f_max_nbors s"
      and "list_all (\<lambda>r. list_all is_int (request_ints r)) reqs"
      and "is_int inum" and "is_int host_inum" and "is_int max_nbor"
  shows
    "(resize_seq alloc s reqs = Inr s' \<longrightarrow> f_max_nbors s \<le> f_max_nbors s') \<and>
     (resize2 alloc s inum max_nbor success = Inr (t, success') \<longrightarrow>
        (f_max_atoms s < inum \<and> 0 \<le> inum \<longrightarrow>
           f_max_atoms t = 11 * inum div 10 \<and> inum \<le> f_max_atoms t) \<and>
        (f_max_nbors s < max_nbor \<longrightarrow>
           f_max_nbors t = 11 * max_nbor div 10 \<and> max_nbor \<le> f_max_nbors t)) \<and>
     (resize3 alloc s inum host_inum max_nbor success = Inr (u, success'') \<longrightarrow>
        (f_max_atoms s < inum \<and> 0 \<le> inum \<longrightarrow>
           f_max_atoms u = 11 * inum div 10 \<and> inum \<le> f_max_atoms u) \<and>
        (f_max_host s < host_inum \<and> 0 \<le> host_inum \<longrightarrow>
           f_max_host u = 11 * host_inum div 10 \<and> host_inum \<le> f_max_host u) \<and>
        (f_max_nbors s < max_nbor \<longrightarrow>
           f_max_nbors u = 11 * max_nbor div 10 \<and> max_nbor \<le> f_max_nbors u))"
proof (intro conjI impI)
  assume "resize_seq alloc s reqs = Inr s'"
  then show "f_max_nbors s \<le> f_max_nbors s'"
    using resize_seq_max_nbors assms(1-3) by blast
next
  assume r: "resize2 alloc s inum max_nbor success = Inr (t, success')"
  note res = resize2_result [OF assms(1) r]
  {
    assume a: "f_max_atoms s < inum \<and> 0 \<le> inum"
    with res have g: "grow inum = Inr (f_max_atoms t)" by simp
    from grow_Inr_ge [OF g] a assms(4)
    show "f_max_atoms t = 11 * inum div 10" and "inum \<le> f_max_atoms t" by simp_all
  }
  {
    assume a: "f_max_nbors s < max_nbor"
    with res have g: "grow max_nbor = Inr (f_max_nbors t)" by simp
    from grow_Inr_ge [OF g] a assms(2,6)
    show "f_max_nbors t = 11 * max_nbor div 10" and "max_nbor \<le> f_max_nbors t" by simp_all
  }
next
  assume r: "resize3 alloc s inum host_inum max_nbor success = Inr (u, success'')"
  note res = resize3_result [OF assms(1) r]
  {
    assume a: "f_max_atoms s < inum \<and> 0 \<le> inum"
    with res have g: "grow inum = Inr (f_max_atoms u)" by simp
    from grow_Inr_ge [OF g] a assms(4)
    show "f_max_atoms u = 11 * inum div 10" and "inum \<le> f_max_atoms u" by simp_all
  }
  {
    assume a: "f_max_host s < host_inum \<and> 0 \<le> host_inum"
    with res have g: "grow host_inum = Inr (f_max_host u)" by simp
    from grow_Inr_ge [OF g] a assms(5)
    show "f_max_host u = 11 * host_inum div 10" and "host_inum \<le> f_max_host u" by simp_all
  }
  {
    assume a: "f_max_nbors s < max_nbor"
    with res have g: "grow max_nbor = Inr (f_max_nbors u)" by simp
    from grow_Inr_ge [OF g] a assms(2,6)
    show "f_max_nbors u = 11 * max_nbor div 10" and "max_nbor \<le> f_max_nbors u" by simp_all
  }
qed

text \<open>
  C1 as stated fails. With \<open>_max_atoms = 1000\<close> and \<open>_max_nbors = 10\<close>, the call
  \<open>resize(5, 20, success)\<close> lowers \<open>_max_atoms\<close> to 5; and \<open>resize(1005, 10, success)\<close> sets
  \<open>_max_atoms\<close> to 1105, less than 110% of 1005.
\<close>

theorem resize_capacity_counterexample:
  "f_max_atoms nbor0 = 1000 \<and> f_max_nbors nbor0 = 10 \<and>
   resize2 alloc_ok nbor0 5 20 True = Inr (nbor0\<lparr>f_max_atoms := 5, f_max_nbors := 22\<rparr>, True) \<and>
   resize_seq alloc_ok nbor0 [Resize2 5 20 True] = Inr (nbor0\<lparr>f_max_atoms := 5, f_max_nbors := 22\<rparr>) \<and>
   resize2 alloc_ok nbor0 1005 10 True = Inr (nbor0\<lparr>f_max_atoms := 1105\<rparr>, True) \<and>
   (1105::int) * 10 < 1005 * 11"
  by (simp add: resize2_def nbor0_def alloc_ok_def grow_nonneg)

theorem resize_capacity_growth_witness:
  "alloc_keeps_capacity alloc_ok \<and> 0 \<le> f_max_nbors nbor0 \<and>
   list_all (\<lambda>r. list_all is_int (request_ints r)) [Resize2 1200 10 True, Resize3 100 50 30 False] \<and>
   is_int 1200 \<and> is_int 50 \<and> is_int 30 \<and>
   resize_seq alloc_ok nbor0 [Resize2 1200 10 True, Resize3 100 50 30 False] =
     Inr (nbor0\<lparr>f_max_atoms := 110, f_max_host := 55, f_max_nbors := 33\<rparr>) \<and>
   f_max_nbors nbor0 \<le> f_max_nbors (nbor0\<lparr>f_max_atoms := 110, f_max_host := 55, f_max_nbors := 33\<rparr>) \<and>
   resize2 alloc_ok nbor0 1200 30 True = Inr (nbor0\<lparr>f_max_atoms := 1320, f_max_nbors := 33\<rparr>, True) \<and>
   f_max_atoms nbor0 < 1200 \<and> f_max_nbors nbor0 < 30 \<and> f_max_host nbor0 < 50 \<and>
   f_max_atoms (nbor0\<lparr>f_max_atoms := 1320, f_max_nbors := 33\<rparr>) = 11 * 1200 div 10 \<and>
   f_max_nbors (nbor0\<lparr>f_max_atoms := 1320, f_max_nbors := 33\<rparr>) = 11 * 30 div 10 \<and>
   resize3 alloc_ok nbor0 1200 50 30 True =
     Inr (nbor0\<lparr>f_max_atoms := 1320, f_max_host := 55, f_max_nbors := 33\<rparr>, True) \<and>
   f_max_host (nbor0\<lparr>f_max_atoms := 1320, f_max_host := 55, f_max_nbors := 33\<rparr>) = 11 * 50 div 10"
proof -
  have k: "alloc_keeps_capacity alloc_ok"
    by (simp add: alloc_keeps_capacity_def alloc_ok_def)
  have n: "0 \<le> f_max_nbors nbor0"
    by (simp add: nbor0_def)
  have l: "list_all (\<lambda>r. list_all is_int (request_ints r))
             [Resize2 1200 10 True, Resize3 100 50 30 False]"
    by (simp add: is_int_def)
  have i: "is_int 1200" "is_int 50" "is_int 30"
    by (simp_all add: is_int_def)
  have s: "resize_seq alloc_ok nbor0 [Resize2 1200 10 True, Resize3 100 50 30 False] =
             Inr (nbor0\<lparr>f_max_atoms := 110, f_max_host := 55, f_max_nbors := 33\<rparr>)"
    by (simp add: resize2_def resize3_def nbor0_def alloc_ok_def grow_nonneg)
  have r2: "resize2 alloc_ok nbor0 1200 30 True =
              Inr (nbor0\<lparr>f_max_atoms := 1320, f_max_nbors := 33\<rparr>, True)"
    by (simp add: resize2_def nbor0_def alloc_ok_def grow_nonneg)
  have r3: "resize3 alloc_ok nbor0 1200 50 30 True =
              Inr (nbor0\<lparr>f_max_atoms := 1320, f_max_host := 55, f_max_nbors := 33\<rparr>, True)"
    by (simp add: resize3_def nbor0_def alloc_ok_def grow_nonneg)
  have c: "f_max_atoms nbor0 < 1200" "f_max_nbors nbor0 < 30" "f_max_host nbor0 < 50"
    by (simp_all add: nbor0_def)
  show ?thesis
    using resize_capacity_growth [OF k n l i, of
        "nbor0\<lparr>f_max_atoms := 110, f_max_host := 55, f_max_nbors := 33\<rparr>"
        True "nbor0\<lparr>f_max_atoms := 1320, f_max_nbors := 33\<rparr>" True
        "nbor0\<lparr>f_max_atoms := 1320, f_max_host := 55, f_max_nbors := 33\<rparr>" True]
      k n l i s r2 r3 c
    by simp
qed


section \<open>Neighbor counts and accounting\<close>

lemma Max_insert_max:
  assumes "finite S"
  shows "Max (insert (max a b) S) = Max (insert a (insert b S))"
  using assms by (cases "S = {}") (simp_all add: max.assoc)

lemma max_nbor_loop_from_Max:
  assumes "0 \<le> i" and "i \<le> inum" and "nat inum \<le> length ilist"
      and "\<forall>j<nat inum. 0 \<le> ilist ! j \<and> ilist ! j < int (length numj)"
  shows "max_nbor_loop_from i mn inum numj ilist =
           Inr (Max (insert mn ((\<lambda>j. numj ! nat (ilist ! j)) ` {nat i..<nat inum})))"
  using assms
proof (induction i mn inum numj ilist rule: max_nbor_loop_from.induct)
  case (1 i mn inum numj ilist)
  let ?f = "\<lambda>j. numj ! nat (ilist ! j)"
  show ?case
  proof (cases "i < inum")
    case False
    with "1.prems" have "{nat i..<nat inum} = {}" by simp
    with False show ?thesis
      by (simp add: max_nbor_loop_from.simps [of i])
  next
    case True
    with "1.prems" have lt: "nat i < nat inum" by simp
    have "i < int (length ilist)"
      using True "1.prems"(3) by linarith
    then have gi: "array_get ilist i = Inr (ilist ! nat i)"
      using "1.prems"(1) by (simp add: array_get_def)
    have gn: "array_get numj (ilist ! nat i) = Inr (?f (nat i))"
      using "1.prems"(4) lt by (simp add: array_get_def)
    have "max_nbor_loop_from (i + 1) (max mn (?f (nat i))) inum numj ilist =
            Inr (Max (insert (max mn (?f (nat i))) (?f ` {nat (i + 1)..<nat inum})))"
      using "1.IH" [OF True gi gn] "1.prems" True by simp
    moreover have "{nat i..<nat inum} = insert (nat i) {nat (i + 1)..<nat inum}"
      using lt "1.prems"(1) by (auto simp: nat_add_distrib)
    ultimately show ?thesis
      using True gi gn
      by (simp add: max_nbor_loop_from.simps [of i] Max_insert_max insert_commute)
  qed
qed

text \<open>
  C10: for \<open>inum \<ge> 0\<close> and arrays such that \<open>ilist[i]\<close> exists and is a valid index into
  \<open>numj\<close> for all \<open>0 \<le> i < inum\<close>, and every \<open>numj[ilist[i]]\<close> is non-negative,
  \<open>max_nbor_loop\<close> returns the maximum of the \<open>numj[ilist[i]]\<close>, and 0 when \<open>inum\<close> is 0.
\<close>

theorem max_nbor_loop_max:
  assumes "0 \<le> inum" and "nat inum \<le> length ilist"
      and "\<forall>i<nat inum. 0 \<le> ilist ! i \<and> ilist ! i < int (length numj)"
      and "\<forall>i<nat inum. 0 \<le> numj ! nat (ilist ! i)"
  shows "max_nbor_loop inum numj ilist =
           Inr (if inum = 0 then 0
                else Max ((\<lambda>i. numj ! nat (ilist ! i)) ` {..<nat inum}))"
proof -
  let ?S = "(\<lambda>i. numj ! nat (ilist ! i)) ` {..<nat inum}"
  have eq: "max_nbor_loop inum numj ilist = Inr (Max (insert 0 ?S))"
    using max_nbor_loop_from_Max [of 0 inum ilist numj 0] assms(1-3)
    by (simp add: max_nbor_loop_def atLeast0LessThan)
  show ?thesis
  proof (cases "inum = 0")
    case True
    with eq show ?thesis by simp
  next
    case False
    with assms(1) have "0 < nat inum" by simp
    then have "0 \<in> {..<nat inum}" by simp
    then have ne: "?S \<noteq> {}" by blast
    have fin: "finite ?S" by simp
    have "Max ?S \<in> ?S" using fin ne by (rule Max_in)
    then have "0 \<le> Max ?S" using assms(4) by auto
    then have "Max (insert 0 ?S) = Max ?S"
      using fin ne by (simp add: max_def)
    with eq False show ?thesis by simp
  qed
qed

theorem max_nbor_loop_max_witness:
  "(0::int) \<le> 3 \<and> nat 3 \<le> length [0, 2, 3 :: int] \<and>
   list_all (\<lambda>k. 0 \<le> k \<and> k < int (length [5, 9, 2, 7 :: int])) (take (nat 3) [0, 2, 3 :: int]) \<and>
   list_all (\<lambda>k. 0 \<le> [5, 9, 2, 7 :: int] ! nat k) (take (nat 3) [0, 2, 3 :: int]) \<and>
   max_nbor_loop 3 [5, 9, 2, 7] [0, 2, 3] = Inr 7 \<and>
   max_nbor_loop 0 [5, 9, 2, 7] [0, 2, 3] = Inr 0"
proof -
  have a: "(0::int) \<le> 3" "nat 3 \<le> length [0, 2, 3 :: int]" by simp_all
  have b: "\<forall>i<nat 3. 0 \<le> [0, 2, 3 :: int] ! i \<and> [0, 2, 3 :: int] ! i < int (length [5, 9, 2, 7 :: int])"
    by (simp add: less_Suc_eq eval_nat_numeral)
  have c: "\<forall>i<nat 3. 0 \<le> [5, 9, 2, 7 :: int] ! nat ([0, 2, 3 :: int] ! i)"
    by (simp add: less_Suc_eq eval_nat_numeral)
  have m: "Max ((\<lambda>i. [5, 9, 2, 7 :: int] ! nat ([0, 2, 3 :: int] ! i)) ` {..<nat 3}) = 7"
    by (simp add: eval_nat_numeral lessThan_Suc)
  have z: "(0::int) \<le> 0" "nat 0 \<le> length [0, 2, 3 :: int]"
     "\<forall>i<nat 0. 0 \<le> [0, 2, 3 :: int] ! i \<and> [0, 2, 3 :: int] ! i < int (length [5, 9, 2, 7 :: int])"
     "\<forall>i<nat 0. 0 \<le> [5, 9, 2, 7 :: int] ! nat ([0, 2, 3 :: int] ! i)"
    by simp_all
  show ?thesis
    using max_nbor_loop_max [OF a b c] max_nbor_loop_max [OF z] a m
    by simp
qed

lemma dbl_add_exact:
  assumes "0 \<le> a + b" and "a + b < 2 ^ 53"
  shows "dbl_add a b = a + b"
  using assms by (cases "a + b = 0") (simp_all add: dbl_add_def round_to_double_def)

text \<open>
  C7: \<open>gpu_bytes\<close> returns the sum of the three recorded byte totals, plus
  \<open>2*IJ_SIZE*sizeof(int)\<close> exactly when \<open>_gpu_nbor\<close> is 0. The totals are byte counts: not
  negative, and small enough (below \<open>2^53\<close> together with the staging bytes) for double
  addition to be exact.
\<close>

theorem gpu_bytes_sum:
  assumes "0 \<le> f_gpu_bytes s" and "0 \<le> f_c_bytes s" and "0 \<le> f_cell_bytes s"
      and "f_gpu_bytes s + f_c_bytes s + f_cell_bytes s + 2 * IJ_SIZE * sizeof_int < 2 ^ 53"
  shows "gpu_bytes s =
           f_gpu_bytes s + f_c_bytes s + f_cell_bytes s +
           (if f_gpu_nbor s = 0 then 2 * IJ_SIZE * sizeof_int else 0) \<and>
         (gpu_bytes s =
            f_gpu_bytes s + f_c_bytes s + f_cell_bytes s + 2 * IJ_SIZE * sizeof_int
          \<longleftrightarrow> f_gpu_nbor s = 0)"
proof -
  have e: "2 * IJ_SIZE * sizeof_int = 1048576"
    by (simp add: IJ_SIZE_def sizeof_int_def)
  have 1: "dbl_add (f_gpu_bytes s) (f_c_bytes s) = f_gpu_bytes s + f_c_bytes s"
    using assms e by (intro dbl_add_exact) simp_all
  have 2: "dbl_add (f_gpu_bytes s + f_c_bytes s) (f_cell_bytes s) =
             f_gpu_bytes s + f_c_bytes s + f_cell_bytes s"
    using assms e by (intro dbl_add_exact) simp_all
  have 3: "dbl_add (f_gpu_bytes s + f_c_bytes s + f_cell_bytes s) (2 * IJ_SIZE * sizeof_int) =
             f_gpu_bytes s + f_c_bytes s + f_cell_bytes s + 2 * IJ_SIZE * sizeof_int"
    using assms e by (intro dbl_add_exact) simp_all
  have "gpu_bytes s =
          f_gpu_bytes s + f_c_bytes s + f_cell_bytes s +
          (if f_gpu_nbor s = 0 then 2 * IJ_SIZE * sizeof_int else 0)"
    by (simp add: gpu_bytes_def Let_def 1 2 3)
  then show ?thesis
    by (simp add: IJ_SIZE_def sizeof_int_def)
qed

theorem gpu_bytes_sum_witness:
  "0 \<le> f_gpu_bytes nbor0 \<and> 0 \<le> f_c_bytes nbor0 \<and> 0 \<le> f_cell_bytes nbor0 \<and>
   f_gpu_bytes nbor0 + f_c_bytes nbor0 + f_cell_bytes nbor0 + 2 * IJ_SIZE * sizeof_int < 2 ^ 53 \<and>
   gpu_bytes nbor0 = 1096576 \<and>
   gpu_bytes (nbor0\<lparr>f_gpu_nbor := 1\<rparr>) = 48000 \<and>
   gpu_bytes (nbor0\<lparr>f_gpu_nbor := 2\<rparr>) = 48000"
proof -
  have h: "0 \<le> f_gpu_bytes nbor0" "0 \<le> f_c_bytes nbor0" "0 \<le> f_cell_bytes nbor0"
    "f_gpu_bytes nbor0 + f_c_bytes nbor0 + f_cell_bytes nbor0 + 2 * IJ_SIZE * sizeof_int < 2 ^ 53"
    by (simp_all add: nbor0_def IJ_SIZE_def sizeof_int_def)
  have h1: "0 \<le> f_gpu_bytes (nbor0\<lparr>f_gpu_nbor := g\<rparr>)" "0 \<le> f_c_bytes (nbor0\<lparr>f_gpu_nbor := g\<rparr>)"
    "0 \<le> f_cell_bytes (nbor0\<lparr>f_gpu_nbor := g\<rparr>)"
    "f_gpu_bytes (nbor0\<lparr>f_gpu_nbor := g\<rparr>) + f_c_bytes (nbor0\<lparr>f_gpu_nbor := g\<rparr>) +
     f_cell_bytes (nbor0\<lparr>f_gpu_nbor := g\<rparr>) + 2 * IJ_SIZE * sizeof_int < 2 ^ 53" for g
    by (simp_all add: nbor0_def IJ_SIZE_def sizeof_int_def)
  show ?thesis
    using gpu_bytes_sum [OF h] gpu_bytes_sum [OF h1, of 1] gpu_bytes_sum [OF h1, of 2] h
    by (simp add: nbor0_def IJ_SIZE_def sizeof_int_def)
qed

text \<open>
  C3: when some particle's actual neighbor count exceeds \<open>_max_nbors\<close>, \<open>build_nbor_list\<close>
  sets \<open>success\<close> to false and reports through \<open>max_nbors\<close> the true maximum of the counts:
  a count that occurs, that no count exceeds, and that exceeds the allocation (so that a
  following \<open>resize\<close> with it reallocates).
\<close>

theorem build_nbor_list_overflow:
  assumes "\<exists>c\<in>set counts. f_max_nbors s < c"
  shows "build_nbor_list s counts success max_nbors = (False, Max (set counts)) \<and>
         Max (set counts) \<in> set counts \<and>
         (\<forall>c\<in>set counts. c \<le> Max (set counts)) \<and>
         f_max_nbors s < Max (set counts)"
proof -
  from assms obtain c where c: "c \<in> set counts" "f_max_nbors s < c" by blast
  then have ne: "set counts \<noteq> {}" by auto
  have "c \<le> Max (set counts)" using c(1) by simp
  with c(2) have "f_max_nbors s < Max (set counts)" by simp
  moreover have "Max (set counts) \<in> set counts" using ne by (intro Max_in) simp_all
  moreover have "build_nbor_list s counts success max_nbors = (False, Max (set counts))"
    using assms by (simp add: build_nbor_list_def list_ex_iff)
  ultimately show ?thesis by simp
qed

theorem build_nbor_list_overflow_witness:
  "(\<exists>c\<in>set [3, 12, 11]. f_max_nbors nbor0 < c) \<and>
   build_nbor_list nbor0 [3, 12, 11] True 0 = (False, 12) \<and>
   f_max_nbors nbor0 < 12"
proof -
  have h: "\<exists>c\<in>set [3, 12, 11]. f_max_nbors nbor0 < c"
    by (simp add: nbor0_def)
  show ?thesis
    using build_nbor_list_overflow [OF h, of True 0] h by simp
qed


section \<open>Copying into the packed storage\<close>

lemma ucl_copy_Inr:
  assumes "ucl_copy dst src numel = Inr d"
  shows "length d = length dst" and "take (nat numel) d = take (nat numel) src"
    and "drop (nat numel) d = drop (nat numel) dst"
    and "0 \<le> numel" and "nat numel \<le> length src" and "nat numel \<le> length dst"
  using assms by (auto simp: ucl_copy_def split: if_splits)

text \<open>
  C9 (as amended): \<open>copy_unpacked(inum, maxj)\<close> copies the first \<open>inum*(maxj+2)\<close> elements
  of the device neighbor matrix \<open>dev_nbor\<close> as they are into the packed storage
  \<open>dev_packed\<close> and changes nothing else; it does so whenever both vectors hold that many
  elements, and whether or not packing is enabled: the packing flag has no influence on
  the result.
\<close>

theorem copy_unpacked_copies:
  "(copy_unpacked s inum maxj = Inr s' \<longrightarrow>
      s' = s\<lparr>dev_packed := dev_packed s'\<rparr> \<and>
      length (dev_packed s') = length (dev_packed s) \<and>
      take (nat (inum * (maxj + 2))) (dev_packed s') = take (nat (inum * (maxj + 2))) (dev_nbor s) \<and>
      drop (nat (inum * (maxj + 2))) (dev_packed s') = drop (nat (inum * (maxj + 2))) (dev_packed s)) \<and>
   (is_int (maxj + 2) \<and> is_int (inum * (maxj + 2)) \<and> 0 \<le> inum * (maxj + 2) \<and>
    nat (inum * (maxj + 2)) \<le> length (dev_nbor s) \<and>
    nat (inum * (maxj + 2)) \<le> length (dev_packed s) \<longrightarrow>
      (\<exists>t. copy_unpacked s inum maxj = Inr t)) \<and>
   copy_unpacked (packing s use_packing) inum maxj =
     map_sum id (\<lambda>t. packing t use_packing) (copy_unpacked s inum maxj)"
proof (intro conjI impI)
  assume r: "copy_unpacked s inum maxj = Inr s'"
  then obtain d where d: "ucl_copy (dev_packed s) (dev_nbor s) (inum * (maxj + 2)) = Inr d"
    and s': "s' = s\<lparr>dev_packed := d\<rparr>"
    by (auto simp: copy_unpacked_def split: if_splits sum.splits)
  show "s' = s\<lparr>dev_packed := dev_packed s'\<rparr>"
    using s' by simp
  show "length (dev_packed s') = length (dev_packed s)"
    using ucl_copy_Inr(1) [OF d] s' by simp
  show "take (nat (inum * (maxj + 2))) (dev_packed s') = take (nat (inum * (maxj + 2))) (dev_nbor s)"
    using ucl_copy_Inr(2) [OF d] s' by simp
  show "drop (nat (inum * (maxj + 2))) (dev_packed s') = drop (nat (inum * (maxj + 2))) (dev_packed s)"
    using ucl_copy_Inr(3) [OF d] s' by simp
next
  assume "is_int (maxj + 2) \<and> is_int (inum * (maxj + 2)) \<and> 0 \<le> inum * (maxj + 2) \<and>
    nat (inum * (maxj + 2)) \<le> length (dev_nbor s) \<and>
    nat (inum * (maxj + 2)) \<le> length (dev_packed s)"
  then show "\<exists>t. copy_unpacked s inum maxj = Inr t"
    by (simp add: copy_unpacked_def ucl_copy_def)
next
  show "copy_unpacked (packing s use_packing) inum maxj =
     map_sum id (\<lambda>t. packing t use_packing) (copy_unpacked s inum maxj)"
    by (simp add: copy_unpacked_def packing_def split: sum.splits)
qed

text \<open>
  C9 as stated fails: with packing disabled, \<open>copy_unpacked(1, 1)\<close> still overwrites the
  first three elements of \<open>dev_packed\<close>.
\<close>

theorem copy_unpacked_counterexample:
  "f_use_packing nbor0 = False \<and>
   dev_packed nbor0 = [0, 0, 0, 0, 0, 0] \<and>
   copy_unpacked nbor0 1 1 = Inr (nbor0\<lparr>dev_packed := [7, 8, 9, 0, 0, 0]\<rparr>)"
  by (simp add: copy_unpacked_def ucl_copy_def nbor0_def is_int_def)

theorem copy_unpacked_copies_witness:
  "copy_unpacked nbor0 1 1 = Inr (nbor0\<lparr>dev_packed := [7, 8, 9, 0, 0, 0]\<rparr>) \<and>
   is_int (1 + 2) \<and> is_int (1 * (1 + 2)) \<and> (0::int) \<le> 1 * (1 + 2) \<and>
   nat (1 * (1 + 2)) \<le> length (dev_nbor nbor0) \<and>
   nat (1 * (1 + 2)) \<le> length (dev_packed nbor0) \<and>
   take (nat (1 * (1 + 2))) (dev_packed (nbor0\<lparr>dev_packed := [7, 8, 9, 0, 0, 0]\<rparr>)) =
     take (nat (1 * (1 + 2))) (dev_nbor nbor0) \<and>
   copy_unpacked (packing nbor0 True) 1 1 =
     Inr (packing (nbor0\<lparr>dev_packed := [7, 8, 9, 0, 0, 0]\<rparr>) True)"
proof -
  have r: "copy_unpacked nbor0 1 1 = Inr (nbor0\<lparr>dev_packed := [7, 8, 9, 0, 0, 0]\<rparr>)"
    by (simp add: copy_unpacked_def ucl_copy_def nbor0_def is_int_def)
  have h: "is_int (1 + 2)" "is_int (1 * (1 + 2))" "(0::int) \<le> 1 * (1 + 2)"
    "nat (1 * (1 + 2)) \<le> length (dev_nbor nbor0)"
    "nat (1 * (1 + 2)) \<le> length (dev_packed nbor0)"
    by (simp_all add: is_int_def nbor0_def)
  show ?thesis
    using copy_unpacked_copies [of nbor0 1 1 "nbor0\<lparr>dev_packed := [7, 8, 9, 0, 0, 0]\<rparr>" True] r h
    by simp
qed


section \<open>The registry: compiling and clearing\<close>

lemma kernels_empty_iff:
  "kernels s = {} \<longleftrightarrow>
     k_nbor s = None \<and> k_cell_id s = None \<and> k_cell_counts s = None \<and>
     k_build_nbor s = None \<and> k_transpose s = None \<and> k_special s = None"
  by (auto simp: kernels_def)

text \<open>
  C5: once the registry is compiled, \<open>compile_kernels\<close> returns it unchanged, whatever the
  mode; in particular after a call of \<open>compile_kernels\<close> that returned, every further call,
  also for another mode, is a no-op.
\<close>

theorem compile_kernels_idempotent:
  "(sh_compiled s \<longrightarrow> compile_kernels be OCL_VENDOR s gpu_nbor = Returns s) \<and>
   (compile_kernels be OCL_VENDOR s gpu_nbor = Returns s1 \<longrightarrow>
      sh_compiled s1 \<and> compile_kernels be' OCL_VENDOR' s1 gpu_nbor' = Returns s1)"
  by (auto simp: compile_kernels_def Let_def split: if_splits)

text \<open>
  C4: in a build for OpenCL, compiling a registry that is not yet compiled for
  device-side neighboring (\<open>gpu_nbor == 1\<close>) ends the process with status 1 after a
  message on \<open>std::cerr\<close>; the call does not return.
\<close>

theorem compile_kernels_opencl_exits:
  "\<not> sh_compiled s \<Longrightarrow>
   compile_kernels OpenCL OCL_VENDOR s 1 =
     Exits 1 (''CANNOT CURRENTLY USE GPU NEIGHBORING WITH OPENCL'' @ [CHR 0x0A])"
  by (simp add: compile_kernels_def)

lemma compile_kernels_Exits_iff:
  "(\<exists>status text. compile_kernels be OCL_VENDOR s gpu_nbor = Exits status text) \<longleftrightarrow>
     \<not> sh_compiled s \<and> be = OpenCL \<and> gpu_nbor = 1"
  by (auto simp: compile_kernels_def Let_def)

text \<open>
  C2 (as amended): compiling a released registry returns unless the build is for OpenCL and
  the mode is 1. Mode 0 sets only the unpack kernel, from the source \<open>neighbor_cpu\<close>.
  Mode 1 sets the five kernels of the build bundle: cell ids, cell counts, neighbor-list
  build, transpose and special. Every other mode (mode 2: binning on the host) sets only
  the neighbor-list build, transpose and special kernels.
\<close>

theorem compile_kernels_bundle:
  assumes "released s"
  shows "(\<not> (be = OpenCL \<and> gpu_nbor = 1) \<longrightarrow>
            (\<exists>s'. compile_kernels be OCL_VENDOR s gpu_nbor = Returns s')) \<and>
         (compile_kernels be OCL_VENDOR s gpu_nbor = Returns s' \<longrightarrow>
            kernels s' =
              (if gpu_nbor = 0 then {''kernel_unpack''}
               else if gpu_nbor = 1 then
                 {''calc_cell_id'', ''kernel_calc_cell_counts'', ''calc_neigh_list_cell'',
                  ''transpose'', ''kernel_special''}
               else {''calc_neigh_list_cell'', ''transpose'', ''kernel_special''}) \<and>
            nbor_program s' =
              (if gpu_nbor = 0
               then Some (Loaded neighbor_cpu
                            (''-cl-fast-relaxed-math -cl-mad-enable -D'' @ OCL_VENDOR))
               else None) \<and>
            build_program s' =
              (if gpu_nbor = 0 then None
               else if be = OpenCL then Some Empty_Program
               else Some (Loaded neighbor_gpu
                            (''-cl-fast-relaxed-math -cl-mad-enable -D'' @ OCL_VENDOR))))"
proof -
  from assms have r: "\<not> sh_compiled s" "nbor_program s = None" "build_program s = None"
    "k_nbor s = None" "k_cell_id s = None" "k_cell_counts s = None"
    "k_build_nbor s = None" "k_transpose s = None" "k_special s = None"
    by (simp_all add: released_def kernels_empty_iff)
  show ?thesis
    using r by (auto simp: compile_kernels_def Let_def kernels_def split: if_splits)
qed


text \<open>
  C2 as stated fails for mode 2: neither the cell-id kernel nor the cell-count kernel is
  set.
\<close>

theorem compile_kernels_bundle_counterexample:
  "compile_kernels CUDA ''GENERIC_OCL'' shared0 2 = Returns shared_bin \<and>
   k_cell_id shared_bin = None \<and> k_cell_counts shared_bin = None \<and>
   kernels shared_bin = {''calc_neigh_list_cell'', ''transpose'', ''kernel_special''}"
  by (auto simp: compile_kernels_def shared0_def shared_bin_def flags0_def kernels_def)

lemma consistent_clear: "consistent s \<Longrightarrow> released (clear s)"
  by (auto simp: consistent_def clear_def released_def kernels_empty_iff split: if_splits)

lemma consistent_compile:
  assumes "consistent s" and "0 \<le> gpu_nbor"
      and "compile_kernels be OCL_VENDOR s gpu_nbor = Returns s'"
  shows "consistent s'"
proof (cases "sh_compiled s")
  case True
  with assms(3) have "s' = s" by (simp add: compile_kernels_def)
  with assms(1) show ?thesis by simp
next
  case False
  with assms(1) have r: "nbor_program s = None" "build_program s = None"
    "k_nbor s = None" "k_cell_id s = None" "k_cell_counts s = None"
    "k_build_nbor s = None" "k_transpose s = None" "k_special s = None"
    by (simp_all add: consistent_def released_def kernels_empty_iff)
  show ?thesis
    using assms(2,3) False r
    by (auto simp: compile_kernels_def Let_def consistent_def split: if_splits)
qed

lemma reachable_consistent: "reachable be OCL_VENDOR s \<Longrightarrow> consistent s"
proof (induction rule: reachable.induct)
  case (fresh s)
  then show ?case by (simp add: consistent_def released_def)
next
  case (compiled s gpu_nbor s')
  then show ?case by (blast intro: consistent_compile)
next
  case (cleared s)
  from cleared.IH have "released (clear s)" by (rule consistent_clear)
  then show ?case by (simp add: consistent_def released_def)
qed

lemma clear_clear: "clear (clear s) = clear s"
  by (simp add: clear_def)

text \<open>
  C6: \<open>clear\<close> on any registry a run can hold leaves it released (marked uncompiled, no
  program alive, no kernel handle set), and a second \<open>clear\<close> changes nothing.
\<close>

theorem clear_releases:
  assumes "reachable be OCL_VENDOR s"
  shows "released (clear s) \<and> clear (clear s) = clear s"
  using assms by (simp add: reachable_consistent consistent_clear clear_clear)

theorem clear_releases_witness:
  "reachable CUDA ''GENERIC_OCL'' shared_dev \<and>
   clear shared_dev = shared0\<lparr>sh_gpu_nbor := 1, neigh_tex := Some (Build_Program, ''neigh_tex'')\<rparr> \<and>
   released (clear shared_dev) \<and> clear (clear shared_dev) = clear shared_dev"
proof -
  have f: "reachable CUDA ''GENERIC_OCL'' shared0"
    by (rule reachable.fresh) (simp add: released_def kernels_def shared0_def)
  have k: "compile_kernels CUDA ''GENERIC_OCL'' shared0 1 = Returns shared_dev"
    by (simp add: compile_kernels_def shared0_def shared_dev_def flags0_def)
  have r: "reachable CUDA ''GENERIC_OCL'' shared_dev"
    using f _ k by (rule reachable.compiled) simp
  have c: "clear shared_dev =
             shared0\<lparr>sh_gpu_nbor := 1, neigh_tex := Some (Build_Program, ''neigh_tex'')\<rparr>"
    by (simp add: clear_def shared_dev_def shared0_def)
  show ?thesis
    using clear_releases [OF r] r c by simp
qed

theorem compile_kernels_bundle_witness:
  "released shared0 \<and> \<not> (CUDA = OpenCL \<and> (1::int) = 1) \<and>
   compile_kernels CUDA ''GENERIC_OCL'' shared0 1 = Returns shared_dev \<and>
   kernels shared_dev =
     {''calc_cell_id'', ''kernel_calc_cell_counts'', ''calc_neigh_list_cell'',
      ''transpose'', ''kernel_special''} \<and>
   nbor_program shared_dev = None \<and>
   build_program shared_dev = Some (Loaded neighbor_gpu flags0)"
proof -
  have r: "released shared0"
    by (simp add: released_def kernels_def shared0_def)
  have c: "compile_kernels CUDA ''GENERIC_OCL'' shared0 1 = Returns shared_dev"
    by (simp add: compile_kernels_def shared0_def shared_dev_def flags0_def)
  show ?thesis
    using compile_kernels_bundle [OF r, of CUDA 1 "''GENERIC_OCL''" shared_dev] r c
    by (simp add: flags0_def)
qed

theorem compile_kernels_idempotent_witness:
  "sh_compiled shared_host \<and>
   compile_kernels CUDA ''GENERIC_OCL'' shared0 0 = Returns shared_host \<and>
   compile_kernels CUDA ''GENERIC_OCL'' shared_host 0 = Returns shared_host \<and>
   compile_kernels CUDA ''GENERIC_OCL'' shared_host 1 = Returns shared_host"
proof -
  have c: "compile_kernels CUDA ''GENERIC_OCL'' shared0 0 = Returns shared_host"
    by (simp add: compile_kernels_def shared0_def shared_host_def flags0_def)
  have h: "sh_compiled shared_host"
    by (simp add: shared_host_def)
  show ?thesis
    using compile_kernels_idempotent [of shared0 CUDA "''GENERIC_OCL''" 0 shared_host CUDA "''GENERIC_OCL''" 1]
      compile_kernels_idempotent [of shared_host CUDA "''GENERIC_OCL''" 0 shared_host CUDA "''GENERIC_OCL''" 1]
      c h
    by simp
qed

theorem compile_kernels_opencl_exits_witness:
  "\<not> sh_compiled shared0 \<and>
   compile_kernels OpenCL ''GENERIC_OCL'' shared0 1 =
     Exits 1 (''CANNOT CURRENTLY USE GPU NEIGHBORING WITH OPENCL'' @ [CHR 0x0A])"
proof -
  have h: "\<not> sh_compiled shared0"
    by (simp add: shared0_def)
  show ?thesis
    using compile_kernels_opencl_exits [OF h, of "''GENERIC_OCL''"] h by simp
qed

end
